theory Spec2Isabelle
  imports Complex_Main
begin

section \<open>Version planning and attw reconciliation of dtslint's \<open>runTests\<close>\<close>

text \<open>
  The development embeds \<^verbatim>\<open>packages/dtslint/src/index.ts\<close> from line 149 of
  \<^verbatim>\<open>runTests\<close> to its end, together with \<^verbatim>\<open>maxVersion\<close>, \<^verbatim>\<open>next\<close> and
  \<^verbatim>\<open>testTypesVersion\<close>. The statements before line 149 (the path assertions, the
  deprecation check, \<^verbatim>\<open>getTypesVersions\<close> and \<^verbatim>\<open>checkPackageJson\<close>) only produce the
  values the rest works on; their results are inputs of the model.
\<close>

subsection \<open>Run-time values\<close>

text \<open>
  A value of the TypeScript type \<^verbatim>\<open>TypeScriptVersion\<close> is a string at run time, and
  \<^verbatim>\<open>supported[index + 1]\<close> past the end of the array is \<^verbatim>\<open>undefined\<close>.
\<close>

datatype js_value = Undefined | Str string

text \<open>The string a template literal \<^verbatim>\<open>${v}\<close> inserts.\<close>

fun to_string :: "js_value \<Rightarrow> string" where
  "to_string Undefined = ''undefined''"
| "to_string (Str s) = s"

text \<open>
  Numbers as \<^verbatim>\<open>parseFloat\<close> returns them: \<^verbatim>\<open>NaN\<close> or a number. The number is kept as
  the exact decimal that was read. JavaScript rounds it to the nearest double; rounding is
  monotone and keeps decimals of up to 15 significant digits apart, so on version
  identifiers comparing the doubles is comparing the decimals.
\<close>

datatype js_number = NaN | Num rat

definition is_digit :: "char \<Rightarrow> bool" where
  "is_digit c \<longleftrightarrow> 48 \<le> (of_char c :: nat) \<and> (of_char c :: nat) \<le> 57"

fun digits_value :: "nat \<Rightarrow> string \<Rightarrow> nat" where
  "digits_value acc [] = acc"
| "digits_value acc (c # cs) = digits_value (10 * acc + (of_char c - 48)) cs"

text \<open>
  \<^verbatim>\<open>parseFloat\<close> on a string reads the longest prefix that is a decimal literal and
  yields \<^verbatim>\<open>NaN\<close> when there is none. The literals read here are digits, optionally
  followed by a point and digits (\<^verbatim>\<open>"3.2"\<close>, \<^verbatim>\<open>"5"\<close>, \<^verbatim>\<open>".5"\<close>); leading white
  space, signs, exponents and \<^verbatim>\<open>Infinity\<close> do not occur in version identifiers and are
  read as no literal.
\<close>

definition parseFloat_string :: "string \<Rightarrow> js_number" where
  "parseFloat_string s =
     (let ip = takeWhile is_digit s;
          rest = dropWhile is_digit s;
          fp = (case rest of
                  [] \<Rightarrow> []
                | c # cs \<Rightarrow> if c = CHR ''.'' then takeWhile is_digit cs else [])
      in if ip = [] \<and> fp = [] then NaN
         else Num (of_nat (digits_value 0 (ip @ fp)) / 10 ^ length fp))"

text \<open>\<^verbatim>\<open>parseFloat(undefined)\<close> parses the string \<^verbatim>\<open>"undefined"\<close>, which is \<^verbatim>\<open>NaN\<close>.\<close>

fun parseFloat :: "js_value \<Rightarrow> js_number" where
  "parseFloat Undefined = NaN"
| "parseFloat (Str s) = parseFloat_string s"

text \<open>\<^verbatim>\<open>a >= b\<close> and \<^verbatim>\<open>a < b\<close> on numbers: false as soon as one side is \<^verbatim>\<open>NaN\<close>.\<close>

fun js_ge :: "js_number \<Rightarrow> js_number \<Rightarrow> bool" where
  "js_ge (Num a) (Num b) = (b \<le> a)"
| "js_ge _ _ = False"

fun js_lt :: "js_number \<Rightarrow> js_number \<Rightarrow> bool" where
  "js_lt (Num a) (Num b) = (a < b)"
| "js_lt _ _ = False"

text \<open>\<^verbatim>\<open>xs[i]\<close>: the element, or \<^verbatim>\<open>undefined\<close> outside the array.\<close>

definition at_index :: "string list \<Rightarrow> int \<Rightarrow> js_value" where
  "at_index xs i = (if 0 \<le> i \<and> i < int (length xs) then Str (xs ! nat i) else Undefined)"

text \<open>\<^verbatim>\<open>xs.indexOf(v)\<close>: the first index holding \<^verbatim>\<open>v\<close>, or \<^verbatim>\<open>-1\<close>.\<close>

fun indexOf_from :: "int \<Rightarrow> string list \<Rightarrow> string \<Rightarrow> int" where
  "indexOf_from i [] v = - 1"
| "indexOf_from i (x # xs) v = (if x = v then i else indexOf_from (i + 1) xs v)"

definition indexOf :: "string list \<Rightarrow> string \<Rightarrow> int" where
  "indexOf xs v = indexOf_from 0 xs v"

subsection \<open>Errors\<close>

text \<open>
  \<^verbatim>\<open>AssertionError\<close> is what \<^verbatim>\<open>assert\<close> throws, with the message the call site gives
  (\<open>None\<close> where it gives none and Node writes its own); \<^verbatim>\<open>Error\<close> is
  \<^verbatim>\<open>throw new Error(msg)\<close>; \<^verbatim>\<open>Unreachable\<close> is the failure of \<^verbatim>\<open>assertNever\<close>.
\<close>

datatype error = AssertionError "string option" | Error string | Unreachable string

text \<open>
  Modelled from the spec: \<^verbatim>\<open>assertNever\<close> of \<^verbatim>\<open>@definitelytyped/utils\<close> is not among
  the sources. The spec calls it an unreachable-case assertion that fails fast on an
  outcome value outside pass, fail and error.
\<close>

definition assertNever :: "string \<Rightarrow> error" where
  "assertNever status = Unreachable status"

subsection \<open>The version catalogue\<close>

text \<open>
  Modelled from the spec: \<^verbatim>\<open>TypeScriptVersion.lowest\<close> and \<^verbatim>\<open>TypeScriptVersion.latest\<close>
  of \<^verbatim>\<open>@definitelytyped/typescript-versions\<close> are not among the sources. The spec has
  the supported versions in ascending order, newest last, and speaks of the lowest and of
  the latest supported version: the first and the last entry of the list.
\<close>

definition lowest :: "string list \<Rightarrow> js_value" where
  "lowest supported = at_index supported 0"

definition latest :: "string list \<Rightarrow> js_value" where
  "latest supported = at_index supported (int (length supported) - 1)"

subsection \<open>\<^verbatim>\<open>maxVersion\<close> and \<^verbatim>\<open>next\<close>\<close>

definition maxVersion :: "js_value \<Rightarrow> js_value \<Rightarrow> js_value" where
  "maxVersion v1 v2 = (if js_ge (parseFloat v1) (parseFloat v2) then v1 else v2)"

text \<open>
  \<^verbatim>\<open>next\<close> (a keyword of Isar, hence the longer name). Its two assertions are kept as
  written: the second compares \<^verbatim>\<open>index\<close>, not \<^verbatim>\<open>index + 1\<close>, with the length.
\<close>

definition next_version :: "string list \<Rightarrow> string \<Rightarrow> error + js_value" where
  "next_version supported v =
     (let index = indexOf supported v
      in if index = - 1 then Inl (AssertionError None)
         else if \<not> index < int (length supported) then Inl (AssertionError None)
         else Inr (at_index supported (index + 1)))"

text \<open>\<^verbatim>\<open>typesVersions.map(next)\<close>: the first failing call throws out of the map.\<close>

fun map_next :: "string list \<Rightarrow> string list \<Rightarrow> error + js_value list" where
  "map_next supported [] = Inr []"
| "map_next supported (v # vs) =
     (case next_version supported v of
        Inl e \<Rightarrow> Inl e
      | Inr l \<Rightarrow> (case map_next supported vs of
                    Inl e \<Rightarrow> Inl e
                  | Inr ls \<Rightarrow> Inr (l # ls)))"

subsection \<open>\<^verbatim>\<open>testTypesVersion\<close> and the effects of a run\<close>

text \<open>The arguments of one call of \<^verbatim>\<open>testTypesVersion\<close>.\<close>

record test_call =
  versionPath :: string
  lowVersion :: js_value
  hiVersion :: js_value
  call_expectOnly :: bool
  call_tsLocal :: "string option"
  isLatest :: bool

text \<open>
  The collaborators \<^verbatim>\<open>testTypesVersion\<close> calls are outside the sources; a run is
  parametrised by what they answer: what \<^verbatim>\<open>checkTslintJson\<close> throws, the errors
  \<^verbatim>\<open>checkTsconfig\<close> returns, the error text \<^verbatim>\<open>lint\<close> resolves to.
\<close>

record collaborators =
  checkTslintJson :: "string \<Rightarrow> error option"
  checkTsconfig :: "string \<Rightarrow> string list"
  lint :: "test_call \<Rightarrow> string option"

fun join_with :: "string \<Rightarrow> string list \<Rightarrow> string" where
  "join_with sep [] = []"
| "join_with sep [x] = x"
| "join_with sep (x # y # ys) = x @ sep @ join_with sep (y # ys)"

definition bullet :: string where
  "bullet = [CHR 0x0A, CHR 0x09, CHR ''*'', CHR '' '']"

text \<open>What \<^verbatim>\<open>testTypesVersion\<close> throws, if anything.\<close>

definition testTypesVersion :: "collaborators \<Rightarrow> test_call \<Rightarrow> error option" where
  "testTypesVersion w c =
     (case checkTslintJson w (versionPath c) of
        Some e \<Rightarrow> Some e
      | None \<Rightarrow>
          (let tsconfigErrors = checkTsconfig w (versionPath c)
           in if length tsconfigErrors > 0
              then Some (Error (bullet @ join_with bullet tsconfigErrors))
              else (case lint w c of
                      Some err \<Rightarrow> if err = [] then None else Some (Error err)
                    | None \<Rightarrow> None)))"

text \<open>
  The observable steps of a run, in the order they happen: a line written by
  \<^verbatim>\<open>console.log\<close> in the range loop, a call of \<^verbatim>\<open>testTypesVersion\<close>, the call of
  \<^verbatim>\<open>runAreTheTypesWrong\<close>.
\<close>

datatype event =
    Log js_value js_value string
  | TestTypesVersion test_call
  | RunAreTheTypesWrong string

fun checks_of :: "event list \<Rightarrow> test_call list" where
  "checks_of [] = []"
| "checks_of (TestTypesVersion c # es) = c # checks_of es"
| "checks_of (e # es) = checks_of es"

fun attw_calls :: "event list \<Rightarrow> string list" where
  "attw_calls [] = []"
| "attw_calls (RunAreTheTypesWrong p # es) = p # attw_calls es"
| "attw_calls (e # es) = attw_calls es"

subsection \<open>The inputs of \<^verbatim>\<open>runTests\<close>\<close>

text \<open>
  \<open>supported\<close> is \<^verbatim>\<open>TypeScriptVersion.supported\<close>, \<open>typesVersions\<close> the result of
  \<^verbatim>\<open>getTypesVersions(dirPath)\<close>, \<open>minimumTypeScriptVersion\<close> and \<open>nonNpm\<close> the fields of
  the checked \<^verbatim>\<open>package.json\<close> (\<open>nonNpm\<close> as its truthiness), \<open>failingPackages\<close> the
  field of \<^verbatim>\<open>attw.json\<close> (\<open>None\<close> when it is \<^verbatim>\<open>undefined\<close> or \<^verbatim>\<open>null\<close>), and
  \<open>attw_output\<close>, \<open>attw_status\<close> what \<^verbatim>\<open>runAreTheTypesWrong\<close> returns. The status is
  the string that arrives at run time.
\<close>

record inputs =
  supported :: "string list"
  typesVersions :: "string list"
  minimumTypeScriptVersion :: js_value
  nonNpm :: bool
  dirPath :: string
  dtRoot :: string
  onlyTestTsNext :: bool
  expectOnly :: bool
  tsLocal :: "string option"
  failingPackages :: "string list option"
  attw_output :: string
  attw_status :: string

text \<open>A string or \<^verbatim>\<open>undefined\<close> in a condition: the empty string is falsy too.\<close>

fun truthy :: "string option \<Rightarrow> bool" where
  "truthy None = False"
| "truthy (Some s) = (s \<noteq> [])"

text \<open>\<^verbatim>\<open>path.join\<close> of a directory and one more segment, without normalisation.\<close>

definition joinPaths :: "string \<Rightarrow> string \<Rightarrow> string" where
  "joinPaths a b = a @ ''/'' @ b"

subsection \<open>The range loop\<close>

text \<open>The message of the assertion at lines 164 to 167.\<close>

definition skips_message :: "js_value \<Rightarrow> js_value \<Rightarrow> string" where
  "skips_message minVersion hi =
     [CHR 0x27] @ ''\"minimumTypeScriptVersion\": \"'' @ to_string minVersion @ ''\"''
       @ [CHR 0x27] @ '' in package.json skips ts'' @ to_string hi @ '' folder.''"

text \<open>
  The loop of lines 161 to 174 over the pairs \<^verbatim>\<open>(lows[i], his[i])\<close>. \<open>many\<close> is
  \<^verbatim>\<open>lows.length > 1\<close>. It returns what was thrown, if anything, and the events of the
  iterations that ran.
\<close>

fun range_loop ::
  "collaborators \<Rightarrow> inputs \<Rightarrow> js_value \<Rightarrow> bool \<Rightarrow> (js_value \<times> js_value) list
     \<Rightarrow> error option \<times> event list" where
  "range_loop w inp minVersion many [] = (None, [])"
| "range_loop w inp minVersion many ((lo, hi) # rest) =
     (let low = maxVersion minVersion lo
      in if \<not> js_ge (parseFloat hi) (parseFloat low)
         then (Some (AssertionError (Some (skips_message minVersion hi))), [])
         else
           (let latestHere = (hi = latest (supported inp));
                path = (if latestHere then dirPath inp
                        else joinPaths (dirPath inp) (''ts'' @ to_string hi));
                call = \<lparr>versionPath = path, lowVersion = low, hiVersion = hi,
                        call_expectOnly = expectOnly inp, call_tsLocal = None,
                        isLatest = latestHere\<rparr>;
                evs = (if many then [Log low hi path] else []) @ [TestTypesVersion call]
            in case testTypesVersion w call of
                 Some e \<Rightarrow> (Some e, evs)
               | None \<Rightarrow>
                   (case range_loop w inp minVersion many rest of
                      (r, evs') \<Rightarrow> (r, evs @ evs'))))"

text \<open>
  Lines 149 to 175: the effective minimum, then either the single check of the newest (or
  the local) compiler, or the lists \<^verbatim>\<open>lows\<close> and \<^verbatim>\<open>his\<close> and the loop. Both lists have
  one entry more than \<^verbatim>\<open>typesVersions\<close>, so the \<^verbatim>\<open>assert.strictEqual\<close> of line 160
  passes and the loop runs over their pairs.
\<close>

definition effective_minimum :: "inputs \<Rightarrow> js_value" where
  "effective_minimum inp =
     maxVersion (minimumTypeScriptVersion inp) (lowest (supported inp))"

definition test_versions :: "collaborators \<Rightarrow> inputs \<Rightarrow> error option \<times> event list" where
  "test_versions w inp =
     (let minVersion = effective_minimum inp
      in if onlyTestTsNext inp \<or> truthy (tsLocal inp)
         then
           (let tsVersion = (if truthy (tsLocal inp) then Str ''local''
                             else latest (supported inp));
                call = \<lparr>versionPath = dirPath inp, lowVersion = tsVersion,
                        hiVersion = tsVersion, call_expectOnly = expectOnly inp,
                        call_tsLocal = tsLocal inp, isLatest = True\<rparr>
            in (testTypesVersion w call, [TestTypesVersion call]))
         else
           (case map_next (supported inp) (typesVersions inp) of
              Inl e \<Rightarrow> (Some e, [])
            | Inr nexts \<Rightarrow>
                (let lows = lowest (supported inp) # nexts;
                     his = map Str (typesVersions inp) @ [latest (supported inp)]
                 in range_loop w inp minVersion (length lows > 1) (zip lows his))))"

subsection \<open>Reconciliation with the attw allow-list\<close>

definition newline :: string where
  "newline = [CHR 0x0A]"

definition ignoring_message :: "string \<Rightarrow> string \<Rightarrow> string" where
  "ignoring_message dirName output =
     ''Ignoring attw failure because \"'' @ dirName @ ''\" is listed in ''
       @ [CHR 0x27] @ ''failingPackages'' @ [CHR 0x27] @ ''.'' @ newline @ newline
       @ ''@arethetypeswrong/cli'' @ newline @ output"

definition stale_message :: "string \<Rightarrow> string \<Rightarrow> string" where
  "stale_message dirName output =
     ''attw passed: remove \"'' @ dirName @ ''\" from ''
       @ [CHR 0x27] @ ''failingPackages'' @ [CHR 0x27] @ '' in attw.json''
       @ newline @ newline @ output"

definition failure_message :: "string \<Rightarrow> string" where
  "failure_message output = ''!@arethetypeswrong/cli'' @ newline @ output"

text \<open>
  The \<^verbatim>\<open>switch (expectError)\<close> of lines 184 to 207 and the \<^verbatim>\<open>return undefined\<close> of
  line 209 that control reaches when no case returns or throws. \<open>expectError\<close> is
  \<open>None\<close> when \<^verbatim>\<open>failingPackages?.includes(dirName)\<close> is \<^verbatim>\<open>undefined\<close>. Every branch
  under \<^verbatim>\<open>case true\<close> returns or throws, so control never falls through into
  \<^verbatim>\<open>case false\<close>; the inner switch under \<^verbatim>\<open>case false\<close> has no default.
\<close>

definition reconcile :: "bool option \<Rightarrow> string \<Rightarrow> string \<Rightarrow> string \<Rightarrow> error + string option" where
  "reconcile expectError dirName output status =
     (case expectError of
        Some True \<Rightarrow>
          (if status = ''error'' then Inr None
           else if status = ''fail'' then Inr (Some (ignoring_message dirName output))
           else if status = ''pass'' then Inl (Error (stale_message dirName output))
           else Inl (assertNever status))
      | Some False \<Rightarrow>
          (if status = ''error'' \<or> status = ''fail''
           then Inl (Error (failure_message output))
           else if status = ''pass'' then Inr None
           else Inr None)
      | None \<Rightarrow> Inr None)"

text \<open>Lines 180 and 181.\<close>

definition dirName_of :: "inputs \<Rightarrow> string" where
  "dirName_of inp = drop (length (dtRoot inp) + length ''/types/'') (dirPath inp)"

definition expectError_of :: "inputs \<Rightarrow> bool option" where
  "expectError_of inp =
     (case failingPackages inp of
        None \<Rightarrow> None
      | Some names \<Rightarrow> Some (dirName_of inp \<in> set names))"

subsection \<open>\<^verbatim>\<open>runTests\<close>\<close>

definition runTests :: "collaborators \<Rightarrow> inputs \<Rightarrow> (error + string option) \<times> event list" where
  "runTests w inp =
     (case test_versions w inp of
        (Some e, evs) \<Rightarrow> (Inl e, evs)
      | (None, evs) \<Rightarrow>
          if \<not> nonNpm inp
          then (reconcile (expectError_of inp) (dirName_of inp) (attw_output inp)
                  (attw_status inp),
                evs @ [RunAreTheTypesWrong (dirPath inp)])
          else (Inr None, evs))"

subsection \<open>One iteration of the range loop\<close>

text \<open>
  The pieces of one iteration, named so that the loop can be unfolded one pair at a time:
  the invariant \<^verbatim>\<open>parseFloat(hi) >= parseFloat(low)\<close>, the call of
  \<^verbatim>\<open>testTypesVersion\<close> and the events of the iteration. Lemma \<open>range_loop_step\<close>
  below shows that \<open>range_loop\<close> is made of exactly these.
\<close>

definition range_ok :: "js_value \<Rightarrow> js_value \<times> js_value \<Rightarrow> bool" where
  "range_ok minV p = js_ge (parseFloat (snd p)) (parseFloat (maxVersion minV (fst p)))"

definition range_call :: "inputs \<Rightarrow> js_value \<Rightarrow> js_value \<times> js_value \<Rightarrow> test_call" where
  "range_call inp minV p =
     \<lparr>versionPath = (if snd p = latest (supported inp) then dirPath inp
                      else joinPaths (dirPath inp) (''ts'' @ to_string (snd p))),
      lowVersion = maxVersion minV (fst p), hiVersion = snd p,
      call_expectOnly = expectOnly inp, call_tsLocal = None,
      isLatest = (snd p = latest (supported inp))\<rparr>"

definition range_events :: "inputs \<Rightarrow> js_value \<Rightarrow> bool \<Rightarrow> js_value \<times> js_value \<Rightarrow> event list" where
  "range_events inp minV many p =
     (if many then [Log (maxVersion minV (fst p)) (snd p) (versionPath (range_call inp minV p))]
      else []) @ [TestTypesVersion (range_call inp minV p)]"

subsection \<open>The words of the specification\<close>

text \<open>
  Two notions of the specification that the source has no function for. A version list is
  ascending when every entry is numerically below all later ones, which is the order the
  specification gives the supported versions and the cutoffs. \<open>version_after\<close> is the
  entry immediately after the first occurrence of \<open>v\<close> in the list, \<^verbatim>\<open>undefined\<close> when
  there is none; it is defined by recursion on the list, without \<^verbatim>\<open>indexOf\<close>, and
  compared with \<open>next_version\<close> in lemma \<open>next_version_present\<close>.
\<close>

definition ascending :: "string list \<Rightarrow> bool" where
  "ascending vs = sorted_wrt (\<lambda>a b. js_lt (parseFloat (Str a)) (parseFloat (Str b))) vs"

fun version_after :: "string list \<Rightarrow> string \<Rightarrow> js_value" where
  "version_after (x # y # ys) v = (if x = v then Str y else version_after (y # ys) v)"
| "version_after _ v = Undefined"

subsection \<open>Concrete runs\<close>

text \<open>
  Collaborators that find nothing wrong, the catalogue of the specification's example
  (3.0 up to 5.0) and a package \<^verbatim>\<open>foo\<close> with the directories \<^verbatim>\<open>ts3.2\<close> and
  \<^verbatim>\<open>ts3.6\<close>, no declared minimum, listed in \<^verbatim>\<open>failingPackages\<close>.
\<close>

definition passing :: collaborators where
  "passing = \<lparr>checkTslintJson = (\<lambda>path. None), checkTsconfig = (\<lambda>path. []),
               lint = (\<lambda>call. None)\<rparr>"

definition catalogue :: "string list" where
  "catalogue = [''3.0'', ''3.1'', ''3.2'', ''3.3'', ''3.4'', ''3.5'', ''3.6'', ''3.7'',
                ''3.8'', ''3.9'', ''4.0'', ''4.1'', ''4.2'', ''4.3'', ''4.4'', ''4.5'',
                ''4.6'', ''4.7'', ''4.8'', ''4.9'', ''5.0'']"

definition example_package :: inputs where
  "example_package =
     \<lparr>supported = catalogue, typesVersions = [''3.2'', ''3.6''],
      minimumTypeScriptVersion = Undefined, nonNpm = False,
      dirPath = ''/dt/types/foo'', dtRoot = ''/dt'',
      onlyTestTsNext = False, expectOnly = False, tsLocal = None,
      failingPackages = Some [''foo''], attw_output = ''report'', attw_status = ''pass''\<rparr>"

section \<open>Basic facts\<close>

lemmas eval_defs = runTests_def test_versions_def effective_minimum_def maxVersion_def
  next_version_def indexOf_def at_index_def lowest_def latest_def parseFloat_string_def
  is_digit_def testTypesVersion_def joinPaths_def reconcile_def expectError_of_def
  dirName_of_def passing_def catalogue_def example_package_def ascending_def Let_def

subsection \<open>Comparisons\<close>

lemma js_ge_iff: "js_ge a b \<longleftrightarrow> (\<exists>x y. a = Num x \<and> b = Num y \<and> y \<le> x)"
  by (cases a; cases b) simp_all

lemma js_lt_iff: "js_lt a b \<longleftrightarrow> (\<exists>x y. a = Num x \<and> b = Num y \<and> x < y)"
  by (cases a; cases b) simp_all

lemma js_lt_trans: "js_lt a b \<Longrightarrow> js_lt b c \<Longrightarrow> js_lt a c"
  by (auto simp: js_lt_iff)

lemma js_lt_irrefl: "\<not> js_lt a a"
  by (auto simp: js_lt_iff)

lemma js_lt_asym: "js_lt a b \<Longrightarrow> \<not> js_lt b a"
  by (auto simp: js_lt_iff)

lemma js_lt_ge: "js_lt a b \<Longrightarrow> js_ge b a"
  by (auto simp: js_lt_iff js_ge_iff)

lemma js_ge_lt_trans: "js_ge b a \<Longrightarrow> js_lt b c \<Longrightarrow> js_ge c a"
  by (auto simp: js_lt_iff js_ge_iff)

lemma js_ge_refl_right: "js_lt a b \<Longrightarrow> js_ge b b"
  by (auto simp: js_lt_iff js_ge_iff)

subsection \<open>\<^verbatim>\<open>maxVersion\<close>\<close>

lemma maxVersion_lowest_again: "maxVersion (maxVersion v lo) lo = maxVersion v lo"
  by (cases "parseFloat v"; cases "parseFloat lo") (simp_all add: maxVersion_def)

subsection \<open>\<^verbatim>\<open>indexOf\<close> and \<^verbatim>\<open>next\<close>\<close>

lemma indexOf_from_absent: "v \<notin> set xs \<Longrightarrow> indexOf_from i xs v = - 1"
  by (induction xs arbitrary: i) auto

lemma indexOf_from_bounds:
  "v \<in> set xs \<Longrightarrow> i \<le> indexOf_from i xs v \<and> indexOf_from i xs v < i + int (length xs)"
proof (induction xs arbitrary: i)
  case Nil
  then show ?case by simp
next
  case (Cons x xs)
  show ?case
  proof (cases "x = v")
    case True
    then show ?thesis by simp
  next
    case False
    with Cons.prems have "v \<in> set xs" by simp
    from Cons.IH [OF this, of "i + 1"] False show ?thesis by simp
  qed
qed

lemma at_index_Cons: "0 \<le> j \<Longrightarrow> at_index (x # xs) (j + 1) = at_index xs j"
  by (auto simp: at_index_def nat_add_distrib)

lemma at_index_after:
  "v \<in> set xs \<Longrightarrow> at_index xs (indexOf_from i xs v - i + 1) = version_after xs v"
proof (induction xs arbitrary: i)
  case Nil
  then show ?case by simp
next
  case (Cons x xs)
  show ?case
  proof (cases "x = v")
    case True
    then show ?thesis by (cases xs) (simp_all add: at_index_def)
  next
    case False
    with Cons.prems have mem: "v \<in> set xs" by simp
    then obtain y ys where xs: "xs = y # ys" by (cases xs) auto
    from indexOf_from_bounds [OF mem, of "i + 1"]
    have "0 \<le> indexOf_from (i + 1) xs v - (i + 1) + 1" by simp
    from at_index_Cons [OF this, of x xs] Cons.IH [OF mem, of "i + 1"] False xs
    show ?thesis by (simp add: algebra_simps)
  qed
qed

text \<open>
  On a version of the list \<^verbatim>\<open>next\<close> never fails and returns what follows its first
  occurrence, \<^verbatim>\<open>undefined\<close> included; on any other version its first assertion fails.
\<close>

lemma next_version_present:
  "v \<in> set known \<Longrightarrow> next_version known v = Inr (version_after known v)"
  using indexOf_from_bounds [of v known 0] at_index_after [of v known 0]
  by (simp add: next_version_def indexOf_def Let_def)

lemma next_version_absent:
  "v \<notin> set known \<Longrightarrow> next_version known v = Inl (AssertionError None)"
  by (simp add: next_version_def indexOf_def indexOf_from_absent)

lemma map_next_present:
  "set vs \<subseteq> set known \<Longrightarrow> map_next known vs = Inr (map (version_after known) vs)"
  by (induction vs) (simp_all add: next_version_present)

lemma map_next_absent:
  "\<not> set vs \<subseteq> set known \<Longrightarrow> map_next known vs = Inl (AssertionError None)"
proof (induction vs)
  case Nil
  then show ?case by simp
next
  case (Cons v vs)
  show ?case
  proof (cases "v \<in> set known")
    case True
    with Cons show ?thesis by (simp add: next_version_present)
  next
    case False
    then show ?thesis by (simp add: next_version_absent)
  qed
qed

lemma latest_last: "known \<noteq> [] \<Longrightarrow> latest known = Str (last known)"
  by (cases known rule: rev_cases) (simp_all add: latest_def at_index_def)

lemma lowest_hd: "known \<noteq> [] \<Longrightarrow> lowest known = Str (hd known)"
  by (simp add: lowest_def at_index_def hd_conv_nth)

subsection \<open>Events\<close>

lemma checks_of_append: "checks_of (xs @ ys) = checks_of xs @ checks_of ys"
  by (induction xs rule: checks_of.induct) simp_all

lemma attw_calls_append: "attw_calls (xs @ ys) = attw_calls xs @ attw_calls ys"
  by (induction xs rule: attw_calls.induct) simp_all

lemma checks_of_range_events: "checks_of (range_events inp minV many p) = [range_call inp minV p]"
  by (simp add: range_events_def)

lemma attw_calls_range_events: "attw_calls (range_events inp minV many p) = []"
  by (simp add: range_events_def)

section \<open>The range loop\<close>

lemma range_loop_step:
  "range_loop w inp minV many (p # rest) =
     (if \<not> range_ok minV p
      then (Some (AssertionError (Some (skips_message minV (snd p)))), [])
      else (case testTypesVersion w (range_call inp minV p) of
              Some e \<Rightarrow> (Some e, range_events inp minV many p)
            | None \<Rightarrow> (fst (range_loop w inp minV many rest),
                       range_events inp minV many p @ snd (range_loop w inp minV many rest))))"
  by (cases p)
     (simp add: range_ok_def range_call_def range_events_def Let_def
           split: option.split prod.split)

lemma range_loop_no_attw: "attw_calls (snd (range_loop w inp minV many ps)) = []"
  by (induction ps)
     (simp_all add: range_loop_step attw_calls_append attw_calls_range_events
           del: range_loop.simps(2) split: option.split)

text \<open>Every range the loop hands to \<^verbatim>\<open>testTypesVersion\<close> has passed the invariant.\<close>

lemma range_loop_dispatched_ok:
  "c \<in> set (checks_of (snd (range_loop w inp minV many ps))) \<Longrightarrow>
   js_ge (parseFloat (hiVersion c)) (parseFloat (lowVersion c))"
proof (induction ps)
  case Nil
  then show ?case by simp
next
  case (Cons p ps)
  have call: "range_ok minV p \<Longrightarrow>
    js_ge (parseFloat (hiVersion (range_call inp minV p)))
          (parseFloat (lowVersion (range_call inp minV p)))"
    by (simp add: range_ok_def range_call_def)
  from Cons call show ?case
    by (auto simp: range_loop_step checks_of_append checks_of_range_events
             simp del: range_loop.simps(2) split: option.splits if_splits)
qed



section \<open>\<^verbatim>\<open>runTests\<close> around the loop\<close>

lemma test_versions_present:
  "\<not> onlyTestTsNext inp \<Longrightarrow> \<not> truthy (tsLocal inp) \<Longrightarrow>
   set (typesVersions inp) \<subseteq> set (supported inp) \<Longrightarrow>
   test_versions w inp =
     range_loop w inp (effective_minimum inp) (typesVersions inp \<noteq> [])
       (zip (lowest (supported inp) # map (version_after (supported inp)) (typesVersions inp))
            (map Str (typesVersions inp) @ [latest (supported inp)]))"
  by (simp add: test_versions_def map_next_present Let_def del: range_loop.simps)

lemma test_versions_absent:
  "\<not> onlyTestTsNext inp \<Longrightarrow> \<not> truthy (tsLocal inp) \<Longrightarrow>
   \<not> set (typesVersions inp) \<subseteq> set (supported inp) \<Longrightarrow>
   test_versions w inp = (Some (AssertionError None), [])"
  by (simp add: test_versions_def map_next_absent)

lemma test_versions_no_attw: "attw_calls (snd (test_versions w inp)) = []"
  by (simp add: test_versions_def Let_def range_loop_no_attw split: sum.split)

lemma runTests_checks: "checks_of (snd (runTests w inp)) = checks_of (snd (test_versions w inp))"
  by (cases "test_versions w inp")
     (simp add: runTests_def checks_of_append split: option.split)

text \<open>Where the version checks pass and the package is an npm package, the switch decides.\<close>

lemma runTests_reconciles:
  "fst (test_versions w inp) = None \<Longrightarrow> \<not> nonNpm inp \<Longrightarrow>
   fst (runTests w inp)
     = reconcile (expectError_of inp) (dirName_of inp) (attw_output inp) (attw_status inp)"
  by (cases "test_versions w inp") (simp add: runTests_def)

lemma test_versions_dispatched:
  "c \<in> set (checks_of (snd (test_versions w inp))) \<Longrightarrow>
   \<not> js_lt (parseFloat (hiVersion c)) (parseFloat (lowVersion c))"
proof (cases "onlyTestTsNext inp \<or> truthy (tsLocal inp)")
  case True
  assume "c \<in> set (checks_of (snd (test_versions w inp)))"
  with True show ?thesis
    by (auto simp: test_versions_def Let_def js_lt_irrefl simp del: parseFloat.simps)
next
  case False
  assume c: "c \<in> set (checks_of (snd (test_versions w inp)))"
  show ?thesis
  proof (cases "set (typesVersions inp) \<subseteq> set (supported inp)")
    case True
    with False c have "js_ge (parseFloat (hiVersion c)) (parseFloat (lowVersion c))"
      by (auto simp: test_versions_present dest: range_loop_dispatched_ok
               simp del: range_loop.simps)
    then show ?thesis by (auto simp: js_ge_iff js_lt_iff)
  next
    case absent: False
    with False c show ?thesis by (simp add: test_versions_absent)
  qed
qed

section \<open>Ascending catalogues and cutoffs\<close>

lemma ascending_Cons:
  "ascending (x # xs) \<longleftrightarrow>
     (\<forall>y \<in> set xs. js_lt (parseFloat_string x) (parseFloat_string y)) \<and> ascending xs"
  by (simp add: ascending_def)

lemma ascending_first:
  "ascending (c # rest) \<Longrightarrow> x \<in> set (c # rest) \<Longrightarrow> js_lt (parseFloat_string x) n \<Longrightarrow>
   js_lt (parseFloat_string c) n"
  by (auto simp: ascending_Cons intro: js_lt_trans)

lemma ascending_hd:
  "ascending known \<Longrightarrow> a \<in> set known \<Longrightarrow> js_ge (parseFloat_string a) (parseFloat_string a) \<Longrightarrow>
   js_ge (parseFloat_string a) (parseFloat_string (hd known))"
  by (cases known) (auto simp: ascending_Cons intro: js_lt_ge)

lemma ascending_last:
  "ascending known \<Longrightarrow> a \<in> set known \<Longrightarrow> a \<noteq> last known \<Longrightarrow>
   js_lt (parseFloat_string a) (parseFloat_string (last known))"
proof (induction known)
  case Nil
  then show ?case by simp
next
  case (Cons x xs)
  show ?case
  proof (cases "xs = []")
    case True
    with Cons.prems show ?thesis by simp
  next
    case False
    show ?thesis
    proof (cases "a = x")
      case True
      from False have "last xs \<in> set xs" by simp
      with Cons.prems(1) True False show ?thesis by (simp add: ascending_Cons)
    next
      case False
      with Cons.prems \<open>xs \<noteq> []\<close> have "a \<in> set xs" "a \<noteq> last xs" "ascending xs"
        by (simp_all add: ascending_Cons)
      from Cons.IH [OF this(3) this(1) this(2)] \<open>xs \<noteq> []\<close> show ?thesis by simp
    qed
  qed
qed

text \<open>
  In an ascending catalogue, the entry after \<open>a\<close> exists and is at most \<open>b\<close> whenever
  \<open>b\<close> is an entry above \<open>a\<close>: consecutive ranges leave no gap and do not cross.
\<close>

lemma version_after_between:
  "ascending known \<Longrightarrow> a \<in> set known \<Longrightarrow> b \<in> set known \<Longrightarrow>
   js_lt (parseFloat_string a) (parseFloat_string b) \<Longrightarrow>
   \<exists>y. version_after known a = Str y \<and> js_ge (parseFloat_string b) (parseFloat_string y)"
proof (induction known)
  case Nil
  then show ?case by simp
next
  case (Cons x xs)
  show ?case
  proof (cases "x = a")
    case True
    with Cons.prems have "b \<noteq> x" using js_lt_irrefl by auto
    with Cons.prems have b: "b \<in> set xs" by simp
    then obtain y ys where xs: "xs = y # ys" by (cases xs) auto
    have "js_ge (parseFloat_string b) (parseFloat_string y)"
    proof (cases "b = y")
      case True
      with Cons.prems(4) show ?thesis using js_ge_refl_right by blast
    next
      case False
      with b xs have "b \<in> set ys" by simp
      with Cons.prems(1) xs have "js_lt (parseFloat_string y) (parseFloat_string b)"
        by (simp add: ascending_Cons)
      then show ?thesis by (rule js_lt_ge)
    qed
    with True xs show ?thesis by simp
  next
    case False
    with Cons.prems have a: "a \<in> set xs" by simp
    then obtain y ys where xs: "xs = y # ys" by (cases xs) auto
    have "b \<noteq> x"
    proof
      assume "b = x"
      with Cons.prems(1) a have "js_lt (parseFloat_string b) (parseFloat_string a)"
        by (simp add: ascending_Cons)
      with Cons.prems(4) show False using js_lt_asym by blast
    qed
    with Cons.prems have b: "b \<in> set xs" by simp
    from Cons.prems(1) have "ascending xs" by (simp add: ascending_Cons)
    from Cons.IH [OF this a b Cons.prems(4)] False xs show ?thesis by simp
  qed
qed

lemma range_ok_both:
  "js_ge (parseFloat hi) (parseFloat minV) \<Longrightarrow> js_ge (parseFloat hi) (parseFloat lo) \<Longrightarrow>
   range_ok minV (lo, hi)"
  by (simp add: range_ok_def maxVersion_def)

lemma first_range_ok:
  assumes "ascending known" and "c \<in> set known"
    and "js_ge (parseFloat_string c) (parseFloat minV)"
  shows "range_ok minV (lowest known, Str c)"
proof -
  from assms(2) have ne: "known \<noteq> []" by auto
  from assms(3) have "js_ge (parseFloat_string c) (parseFloat_string c)"
    by (auto simp: js_ge_iff)
  from ascending_hd [OF assms(1,2) this] assms(3) show ?thesis
    by (simp add: lowest_hd [OF ne] range_ok_both)
qed

lemma later_ranges_ok:
  "ascending known \<Longrightarrow> ascending (c # rest) \<Longrightarrow> set (c # rest) \<subseteq> set known \<Longrightarrow>
   last known \<notin> set (c # rest) \<Longrightarrow> js_ge (parseFloat_string c) (parseFloat minV) \<Longrightarrow>
   \<forall>p \<in> set (zip (map (version_after known) (c # rest)) (map Str rest @ [Str (last known)])).
     range_ok minV p"
proof (induction rest arbitrary: c)
  case Nil
  then have lt: "js_lt (parseFloat_string c) (parseFloat_string (last known))"
    by (simp add: ascending_last)
  from Nil have "known \<noteq> []" by auto
  then have "last known \<in> set known" by simp
  from version_after_between [OF Nil.prems(1) _ this lt] Nil.prems
  obtain y where y: "version_after known c = Str y"
    "js_ge (parseFloat_string (last known)) (parseFloat_string y)" by auto
  from Nil.prems(5) lt have "js_ge (parseFloat_string (last known)) (parseFloat minV)"
    by (rule js_ge_lt_trans)
  with y show ?case by (simp add: range_ok_both)
next
  case (Cons c' rest)
  from Cons.prems(2) have lt: "js_lt (parseFloat_string c) (parseFloat_string c')"
    by (simp add: ascending_Cons)
  from version_after_between [OF Cons.prems(1) _ _ lt] Cons.prems(3)
  obtain y where y: "version_after known c = Str y"
    "js_ge (parseFloat_string c') (parseFloat_string y)" by auto
  from Cons.prems(5) lt have ge: "js_ge (parseFloat_string c') (parseFloat minV)"
    by (rule js_ge_lt_trans)
  from Cons.prems have "ascending (c' # rest)" "set (c' # rest) \<subseteq> set known"
    "last known \<notin> set (c' # rest)"
    by (simp_all add: ascending_Cons)
  from Cons.IH [OF Cons.prems(1) this ge] y ge show ?case
    by (simp add: range_ok_both)
qed

lemma all_ranges_ok:
  assumes "ascending known" and "ascending (c # rest)" and "set (c # rest) \<subseteq> set known"
    and "last known \<notin> set (c # rest)"
    and "js_ge (parseFloat_string c) (parseFloat minV)"
  shows "\<forall>p \<in> set (zip (lowest known # map (version_after known) (c # rest))
                       (map Str (c # rest) @ [latest known])). range_ok minV p"
proof -
  from assms(3) have ne: "known \<noteq> []" by auto
  from assms(3) have "c \<in> set known" by simp
  from first_range_ok [OF assms(1) this assms(5)] later_ranges_ok [OF assms]
  show ?thesis by (simp add: latest_last [OF ne])
qed

text \<open>A minimum above a cutoff makes the range of that cutoff fail when it is the first.\<close>

lemma first_range_skipped:
  assumes "js_lt (parseFloat_string c) (parseFloat v)"
  shows "\<not> range_ok (maxVersion v lo) (lo, Str c)"
proof -
  have "\<not> js_ge (parseFloat_string c) (parseFloat (maxVersion v lo))"
    using assms by (auto simp: maxVersion_def js_ge_iff js_lt_iff)
  then show ?thesis by (simp add: range_ok_def maxVersion_lowest_again)
qed

text \<open>
  With ascending supported versions and ascending cutoffs, none of them the latest supported
  version, a run that has checked any range has no cutoff outside the supported versions
  and no range that violates the invariant: a configuration error, when there is one,
  comes before every check.
\<close>

lemma no_check_before_configuration_error:
  assumes "\<not> onlyTestTsNext inp" and "\<not> truthy (tsLocal inp)"
    and "ascending (supported inp)" and "ascending (typesVersions inp)"
    and "last (supported inp) \<notin> set (typesVersions inp)"
    and "checks_of (snd (runTests w inp)) \<noteq> []"
  shows "set (typesVersions inp) \<subseteq> set (supported inp)
       \<and> (\<forall>p \<in> set (zip (lowest (supported inp)
                             # map (version_after (supported inp)) (typesVersions inp))
                            (map Str (typesVersions inp) @ [latest (supported inp)])).
             range_ok (effective_minimum inp) p)"
proof -
  let ?known = "supported inp" and ?minV = "effective_minimum inp"
  have sub: "set (typesVersions inp) \<subseteq> set ?known"
  proof (rule ccontr)
    assume "\<not> set (typesVersions inp) \<subseteq> set ?known"
    with assms(1,2) have "test_versions w inp = (Some (AssertionError None), [])"
      by (rule test_versions_absent)
    with assms(6) show False by (simp add: runTests_checks)
  qed
  from assms(6) have ran: "checks_of (snd (test_versions w inp)) \<noteq> []"
    by (simp add: runTests_checks)
  have first: "range_ok ?minV (lowest ?known, hd (map Str (typesVersions inp) @ [latest ?known]))"
  proof (rule ccontr)
    assume "\<not> range_ok ?minV (lowest ?known, hd (map Str (typesVersions inp) @ [latest ?known]))"
    with assms(1,2) sub have "checks_of (snd (test_versions w inp)) = []"
      by (cases "typesVersions inp")
         (simp_all add: test_versions_present range_loop_step del: range_loop.simps)
    with ran show False by simp
  qed
  show ?thesis
  proof (cases "typesVersions inp")
    case Nil
    with first sub show ?thesis by simp
  next
    case (Cons c rest)
    with first have "js_ge (parseFloat_string c) (parseFloat ?minV)"
      by (simp add: range_ok_def effective_minimum_def maxVersion_lowest_again)
    from all_ranges_ok [OF assms(3) _ _ _ this, of rest] assms(4,5) sub Cons
    show ?thesis by simp
  qed
qed

subsection \<open>The concrete runs\<close>

lemma ascending_catalogue: "ascending catalogue"
  by (simp add: ascending_def catalogue_def parseFloat_string_def is_digit_def)


lemma all_false: "\<forall>x \<in> set xs. \<not> P x \<Longrightarrow> map P xs = replicate (length xs) False"
  by (induction xs) simp_all

text \<open>Under \<^verbatim>\<open>case true\<close> an unknown status reaches \<^verbatim>\<open>assertNever\<close>.\<close>

lemma unknown_status_expected:
  "status \<noteq> ''error'' \<Longrightarrow> status \<noteq> ''fail'' \<Longrightarrow> status \<noteq> ''pass'' \<Longrightarrow>
   reconcile (Some True) dirName output status = Inl (Unreachable status)"
  by (simp add: reconcile_def assertNever_def)

section \<open>The claims\<close>

subsection \<open>C1: the planned ranges\<close>




subsection \<open>C2: the reconciliation table\<close>

text \<open>
  C2. For the expectation flag true or false and the status pass, fail or error the switch
  gives the six results of the table: expected and error, no message; expected and fail,
  the message that the failure is ignored because the package is listed, followed by the
  raw output; expected and pass, the error that asks to remove the package from
  \<^verbatim>\<open>failingPackages\<close>; not expected and error or fail, the error with the raw output;
  not expected and pass, no message.
\<close>

theorem reconcile_table:
  "reconcile (Some True) dirName output ''error'' = Inr None
   \<and> reconcile (Some True) dirName output ''fail''
       = Inr (Some (''Ignoring attw failure because \"'' @ dirName @ ''\" is listed in ''
                    @ [CHR 0x27] @ ''failingPackages'' @ [CHR 0x27] @ ''.''
                    @ [CHR 0x0A, CHR 0x0A] @ ''@arethetypeswrong/cli'' @ [CHR 0x0A] @ output))
   \<and> reconcile (Some True) dirName output ''pass''
       = Inl (Error (''attw passed: remove \"'' @ dirName @ ''\" from ''
                    @ [CHR 0x27] @ ''failingPackages'' @ [CHR 0x27] @ '' in attw.json''
                    @ [CHR 0x0A, CHR 0x0A] @ output))
   \<and> reconcile (Some False) dirName output ''error''
       = Inl (Error (''!@arethetypeswrong/cli'' @ [CHR 0x0A] @ output))
   \<and> reconcile (Some False) dirName output ''fail''
       = Inl (Error (''!@arethetypeswrong/cli'' @ [CHR 0x0A] @ output))
   \<and> reconcile (Some False) dirName output ''pass'' = Inr None"
  by (simp add: reconcile_def ignoring_message_def stale_message_def failure_message_def
        newline_def)

subsection \<open>C3: a minimum above a cutoff\<close>

text \<open>
  C3, as stated for every cutoff list, fails where a cutoff is not a supported version:
  with a directory \<^verbatim>\<open>ts2.9\<close> and the declared minimum 3.4 the run fails in \<^verbatim>\<open>next\<close>,
  on the assertion that carries no message and so names no directory.
\<close>

theorem minimum_above_cutoff_counterexample:
  "js_lt (parseFloat (Str ''2.9'')) (parseFloat (Str ''3.4''))
   \<and> runTests passing
        (example_package\<lparr>typesVersions := [''2.9''],
                          minimumTypeScriptVersion := Str ''3.4''\<rparr>)
       = (Inl (AssertionError None), [])"
  by (simp add: eval_defs)

text \<open>
  C3, amended. For every supported list, every ascending cutoff list whose entries all occur
  in the supported list and every declared minimum that is numerically greater than some
  cutoff, \<^verbatim>\<open>runTests\<close> (not asked for a single compiler) fails at the first range, before
  any check, with the assertion error whose message gives the effective minimum and names
  the directory of the first cutoff, the lowest one the minimum skips. And in every run, of
  whatever inputs, no range with high numerically below low is handed to a check.
\<close>

theorem minimum_above_cutoff:
  "(\<not> onlyTestTsNext inp \<and> \<not> truthy (tsLocal inp)
      \<and> set (typesVersions inp) \<subseteq> set (supported inp) \<and> ascending (typesVersions inp)
      \<and> (\<exists>c \<in> set (typesVersions inp).
            js_lt (parseFloat (Str c)) (parseFloat (minimumTypeScriptVersion inp)))
    \<longrightarrow> runTests w inp
          = (Inl (AssertionError (Some
               ([CHR 0x27] @ ''\"minimumTypeScriptVersion\": \"''
                 @ to_string (effective_minimum inp) @ ''\"'' @ [CHR 0x27]
                 @ '' in package.json skips ts'' @ hd (typesVersions inp) @ '' folder.''))),
             []))
   \<and> (\<forall>c \<in> set (checks_of (snd (runTests w inp))).
         \<not> js_lt (parseFloat (hiVersion c)) (parseFloat (lowVersion c)))"
proof (intro conjI impI ballI)
  fix c
  assume "c \<in> set (checks_of (snd (runTests w inp)))"
  then show "\<not> js_lt (parseFloat (hiVersion c)) (parseFloat (lowVersion c))"
    by (simp add: runTests_checks test_versions_dispatched)
next
  assume a: "\<not> onlyTestTsNext inp \<and> \<not> truthy (tsLocal inp)
      \<and> set (typesVersions inp) \<subseteq> set (supported inp) \<and> ascending (typesVersions inp)
      \<and> (\<exists>c \<in> set (typesVersions inp).
            js_lt (parseFloat (Str c)) (parseFloat (minimumTypeScriptVersion inp)))"
  then obtain x where x: "x \<in> set (typesVersions inp)"
    "js_lt (parseFloat_string x) (parseFloat (minimumTypeScriptVersion inp))"
    by auto
  then obtain c rest where cs: "typesVersions inp = c # rest"
    by (cases "typesVersions inp") auto
  from a x cs have "js_lt (parseFloat_string c) (parseFloat (minimumTypeScriptVersion inp))"
    using ascending_first by metis
  then have "\<not> range_ok (effective_minimum inp) (lowest (supported inp), Str c)"
    unfolding effective_minimum_def by (rule first_range_skipped)
  with a cs have "test_versions w inp
      = (Some (AssertionError (Some (skips_message (effective_minimum inp) (Str c)))), [])"
    by (simp add: test_versions_present range_loop_step del: range_loop.simps)
  then show "runTests w inp
          = (Inl (AssertionError (Some
               ([CHR 0x27] @ ''\"minimumTypeScriptVersion\": \"''
                 @ to_string (effective_minimum inp) @ ''\"'' @ [CHR 0x27]
                 @ '' in package.json skips ts'' @ hd (typesVersions inp) @ '' folder.''))),
             [])"
    by (simp add: runTests_def skips_message_def cs)
qed

text \<open>
  The minimum 3.4 above the cutoff 3.2 stops the run with the message that names
  \<^verbatim>\<open>ts3.2\<close>; in the run without a declared minimum three ranges are checked and none of
  them has its high below its low.
\<close>

theorem minimum_above_cutoff_witness:
  "js_lt (parseFloat (Str ''3.2'')) (parseFloat (Str ''3.4''))
   \<and> runTests passing (example_package\<lparr>minimumTypeScriptVersion := Str ''3.4''\<rparr>)
       = (Inl (AssertionError (Some
            ([CHR 0x27] @ ''\"minimumTypeScriptVersion\": \"3.4\"'' @ [CHR 0x27]
              @ '' in package.json skips ts3.2 folder.''))), [])
   \<and> map (\<lambda>c. js_lt (parseFloat (hiVersion c)) (parseFloat (lowVersion c)))
         (checks_of (snd (runTests passing example_package)))
       = [False, False, False]"
proof -
  let ?inp = "example_package\<lparr>minimumTypeScriptVersion := Str ''3.4''\<rparr>"
  have lt: "js_lt (parseFloat (Str ''3.2'')) (parseFloat (Str ''3.4''))"
    by (simp add: parseFloat_string_def is_digit_def)
  have h: "\<not> onlyTestTsNext ?inp \<and> \<not> truthy (tsLocal ?inp)
      \<and> set (typesVersions ?inp) \<subseteq> set (supported ?inp) \<and> ascending (typesVersions ?inp)
      \<and> (\<exists>c \<in> set (typesVersions ?inp).
            js_lt (parseFloat (Str c)) (parseFloat (minimumTypeScriptVersion ?inp)))"
    by (simp add: example_package_def catalogue_def ascending_def parseFloat_string_def
          is_digit_def)
  have m: "effective_minimum ?inp = Str ''3.4''" by (simp add: eval_defs)
  have len: "length (checks_of (snd (runTests passing example_package))) = 3"
    by (simp add: eval_defs)
  from minimum_above_cutoff [of ?inp passing] h m
  have run: "runTests passing ?inp
       = (Inl (AssertionError (Some
            ([CHR 0x27] @ ''\"minimumTypeScriptVersion\": \"3.4\"'' @ [CHR 0x27]
              @ '' in package.json skips ts3.2 folder.''))), [])"
    by (simp add: example_package_def)
  from minimum_above_cutoff [of example_package passing]
  have "\<forall>c \<in> set (checks_of (snd (runTests passing example_package))).
         \<not> js_lt (parseFloat (hiVersion c)) (parseFloat (lowVersion c))"
    by blast
  from all_false [OF this] len
  have "map (\<lambda>c. js_lt (parseFloat (hiVersion c)) (parseFloat (lowVersion c)))
         (checks_of (snd (runTests passing example_package)))
       = [False, False, False]"
    by (simp add: numeral_3_eq_3)
  with lt run show ?thesis by blast
qed

subsection \<open>C4: \<^verbatim>\<open>next\<close> at the last supported version\<close>

text \<open>
  C4. \<^verbatim>\<open>next\<close> returns the entry after \<open>v\<close> and fails when \<open>v\<close> is not in the list
  (lemmas \<open>next_version_present\<close> and \<open>next_version_absent\<close>). On the last entry the claim
  has it fail; the code returns \<^verbatim>\<open>undefined\<close>, since its second assertion compares
  \<^verbatim>\<open>index\<close> with the length and so holds for every index \<^verbatim>\<open>indexOf\<close> can return.
\<close>

theorem next_at_last_entry: "next_version catalogue ''5.0'' = Inr Undefined"
  by (simp add: next_version_def indexOf_def at_index_def catalogue_def)

subsection \<open>C5: no cutoffs\<close>

text \<open>
  C5, as stated for every declared minimum, fails for a minimum above the latest supported
  version: the invariant of the single range fails and nothing is checked.
\<close>

theorem no_cutoffs_single_range_counterexample:
  "runTests passing
     (example_package\<lparr>typesVersions := [], minimumTypeScriptVersion := Str ''5.1''\<rparr>)
     = (Inl (AssertionError (Some (skips_message (Str ''5.1'') (Str ''5.0'')))), [])"
  by (simp add: eval_defs)

text \<open>
  C5, amended. For every supported list and declared minimum such that the latest supported
  version is numerically at least the effective minimum, \<^verbatim>\<open>runTests\<close> (not asked for a
  single compiler) on a package without cutoff directories checks exactly one range: from
  the effective minimum to the latest supported version, with \<^verbatim>\<open>isLatest\<close> true, in the
  package root.
\<close>

theorem no_cutoffs_single_range:
  assumes "\<not> onlyTestTsNext inp" and "\<not> truthy (tsLocal inp)"
    and "typesVersions inp = []"
    and "js_ge (parseFloat (latest (supported inp))) (parseFloat (effective_minimum inp))"
  shows "checks_of (snd (runTests w inp))
           = [\<lparr>versionPath = dirPath inp, lowVersion = effective_minimum inp,
               hiVersion = latest (supported inp), call_expectOnly = expectOnly inp,
               call_tsLocal = None, isLatest = True\<rparr>]"
proof -
  have "range_ok (effective_minimum inp) (lowest (supported inp), latest (supported inp))"
    using assms(4) by (simp add: range_ok_def effective_minimum_def maxVersion_lowest_again)
  with assms(1,2,3) show ?thesis
    by (simp add: runTests_checks test_versions_present range_loop_step checks_of_append
          checks_of_range_events range_call_def effective_minimum_def maxVersion_lowest_again
          del: range_loop.simps(2) split: option.split)
qed

theorem no_cutoffs_single_range_witness:
  "js_ge (parseFloat (latest (supported (example_package\<lparr>typesVersions := []\<rparr>))))
         (parseFloat (effective_minimum (example_package\<lparr>typesVersions := []\<rparr>)))
   \<and> checks_of (snd (runTests passing (example_package\<lparr>typesVersions := []\<rparr>)))
       = [\<lparr>versionPath = ''/dt/types/foo'', lowVersion = Str ''3.0'',
           hiVersion = Str ''5.0'', call_expectOnly = False, call_tsLocal = None,
           isLatest = True\<rparr>]"
proof -
  let ?inp = "example_package\<lparr>typesVersions := []\<rparr>"
  have h1: "\<not> onlyTestTsNext ?inp" by (simp add: example_package_def)
  have h2: "\<not> truthy (tsLocal ?inp)" by (simp add: example_package_def)
  have h3: "typesVersions ?inp = []" by simp
  have h4: "js_ge (parseFloat (latest (supported ?inp))) (parseFloat (effective_minimum ?inp))"
    by (simp add: eval_defs)
  from no_cutoffs_single_range [OF h1 h2 h3 h4, of passing] h4 show ?thesis
    by (simp add: eval_defs)
qed

subsection \<open>C6: the effective minimum\<close>

text \<open>
  C6. Where the lowest supported version is a number, the effective minimum that
  \<^verbatim>\<open>maxVersion\<close> computes is numerically at least the lowest supported version, whatever
  the declared minimum is: a version below the lowest, a version above it, or none.
\<close>

theorem effective_minimum_ge_lowest:
  "parseFloat (lowest (supported inp)) \<noteq> NaN \<Longrightarrow>
   js_ge (parseFloat (effective_minimum inp)) (parseFloat (lowest (supported inp)))"
  by (cases "parseFloat (lowest (supported inp))";
      cases "parseFloat (minimumTypeScriptVersion inp)")
     (simp_all add: effective_minimum_def maxVersion_def)

theorem effective_minimum_ge_lowest_witness:
  "parseFloat (lowest (supported (example_package\<lparr>minimumTypeScriptVersion := Str ''2.0''\<rparr>)))
     \<noteq> NaN
   \<and> js_ge (parseFloat (effective_minimum
               (example_package\<lparr>minimumTypeScriptVersion := Str ''2.0''\<rparr>)))
            (parseFloat (lowest (supported
               (example_package\<lparr>minimumTypeScriptVersion := Str ''2.0''\<rparr>))))"
proof -
  let ?inp = "example_package\<lparr>minimumTypeScriptVersion := Str ''2.0''\<rparr>"
  have h: "parseFloat (lowest (supported ?inp)) \<noteq> NaN" by (simp add: eval_defs)
  from h effective_minimum_ge_lowest [OF h] show ?thesis by blast
qed

subsection \<open>C7: a status outside pass, fail and error\<close>

text \<open>
  C7. The claim has an unknown status fail fast for both values of the expectation flag.
  Under \<^verbatim>\<open>case true\<close> it does (lemma \<open>unknown_status_expected\<close>). Under \<^verbatim>\<open>case false\<close>
  the inner switch has no default: for a package that is not listed and the status
  \<^verbatim>\<open>timeout\<close> the run returns without a message.
\<close>

theorem unknown_status_accepted:
  "fst (runTests passing
          (example_package\<lparr>failingPackages := Some [], attw_status := ''timeout''\<rparr>))
     = Inr None"
  by (simp add: eval_defs)

subsection \<open>C8: checks that run before a configuration error\<close>

text \<open>
  C8. Every configuration error is to abort the run before any range has been checked.
  The lows of all ranges are computed before the loop, so a cutoff outside the supported
  versions aborts in \<^verbatim>\<open>next\<close> with nothing checked; and on ascending supported
  versions and cutoffs, none at the latest supported version, the invariant can only fail
  at the first range (lemma \<open>no_check_before_configuration_error\<close>). A directory for
  the latest supported version breaks this: \<^verbatim>\<open>next\<close> returns \<^verbatim>\<open>undefined\<close> for it
  where its second assertion was to fail, the range up to that version is checked, at the
  package root, and only then the loop fails on the range that starts at \<^verbatim>\<open>undefined\<close>.
\<close>

theorem check_before_error_at_latest_cutoff:
  "ascending (supported (example_package\<lparr>typesVersions := [''5.0'']\<rparr>))
   \<and> ascending (typesVersions (example_package\<lparr>typesVersions := [''5.0'']\<rparr>))
   \<and> set (typesVersions (example_package\<lparr>typesVersions := [''5.0'']\<rparr>))
       \<subseteq> set (supported (example_package\<lparr>typesVersions := [''5.0'']\<rparr>))
   \<and> next_version catalogue ''5.0'' = Inr Undefined
   \<and> fst (runTests passing (example_package\<lparr>typesVersions := [''5.0'']\<rparr>))
       = Inl (AssertionError (Some
           ([CHR 0x27] @ ''\"minimumTypeScriptVersion\": \"3.0\"'' @ [CHR 0x27]
             @ '' in package.json skips ts5.0 folder.'')))
   \<and> checks_of (snd (runTests passing (example_package\<lparr>typesVersions := [''5.0'']\<rparr>)))
       = [\<lparr>versionPath = ''/dt/types/foo'', lowVersion = Str ''3.0'',
           hiVersion = Str ''5.0'', call_expectOnly = False, call_tsLocal = None,
           isLatest = True\<rparr>]"
  by (simp add: eval_defs ascending_catalogue [unfolded ascending_def catalogue_def]
        skips_message_def)

subsection \<open>C9: no allow-list\<close>

text \<open>
  C9. When \<^verbatim>\<open>failingPackages\<close> is \<^verbatim>\<open>undefined\<close> or \<^verbatim>\<open>null\<close>, the expectation flag is
  neither true nor false, the switch matches no case and \<^verbatim>\<open>runTests\<close>, once the version
  checks have passed, returns no message whatever \<^verbatim>\<open>runAreTheTypesWrong\<close> reports.
\<close>

theorem absent_allow_list:
  "failingPackages inp = None \<Longrightarrow> fst (test_versions w inp) = None \<Longrightarrow>
   expectError_of inp = None \<and> fst (runTests w inp) = Inr None"
  by (cases "test_versions w inp")
     (simp add: runTests_def expectError_of_def reconcile_def)

theorem absent_allow_list_witness:
  "fst (test_versions passing
          (example_package\<lparr>failingPackages := None, attw_status := ''fail''\<rparr>)) = None
   \<and> expectError_of (example_package\<lparr>failingPackages := None, attw_status := ''fail''\<rparr>)
       = None
   \<and> fst (runTests passing
            (example_package\<lparr>failingPackages := None, attw_status := ''fail''\<rparr>))
       = Inr None"
proof -
  let ?inp = "example_package\<lparr>failingPackages := None, attw_status := ''fail''\<rparr>"
  have h1: "failingPackages ?inp = None" by simp
  have h2: "fst (test_versions passing ?inp) = None" by (simp add: eval_defs)
  from absent_allow_list [OF h1 h2] h2 show ?thesis by simp
qed

subsection \<open>C10: packages that are not on npm\<close>

text \<open>
  C10. For a package whose \<^verbatim>\<open>package.json\<close> sets \<^verbatim>\<open>nonNpm\<close>, \<^verbatim>\<open>runTests\<close> never calls
  \<^verbatim>\<open>runAreTheTypesWrong\<close> and returns no message, whatever the allow-list holds: its
  result is the error of the version checks, if there is one, and no message otherwise.
  So the compatibility check runs for npm packages only.
\<close>

theorem nonNpm_skips_attw:
  "nonNpm inp \<Longrightarrow>
   attw_calls (snd (runTests w inp)) = []
   \<and> fst (runTests w inp)
       = (case fst (test_versions w inp) of Some e \<Rightarrow> Inl e | None \<Rightarrow> Inr None)"
  using test_versions_no_attw [of w inp]
  by (cases "test_versions w inp") (simp add: runTests_def split: option.split)

theorem nonNpm_skips_attw_witness:
  "nonNpm (example_package\<lparr>nonNpm := True, attw_status := ''fail''\<rparr>)
   \<and> attw_calls (snd (runTests passing
         (example_package\<lparr>nonNpm := True, attw_status := ''fail''\<rparr>))) = []
   \<and> fst (runTests passing (example_package\<lparr>nonNpm := True, attw_status := ''fail''\<rparr>))
       = Inr None"
proof -
  let ?inp = "example_package\<lparr>nonNpm := True, attw_status := ''fail''\<rparr>"
  have h: "nonNpm ?inp" by simp
  have t: "fst (test_versions passing ?inp) = None" by (simp add: eval_defs)
  from nonNpm_skips_attw [OF h, of passing] h t show ?thesis by simp
qed

end
